theory Spec2Isabelle
  imports
    Complex_Main
    "HOL-Library.Multiset"
    "HOL-Library.Char_ord"
    "HOL-Library.List_Lexorder"
    "HOL-Library.Product_Lexorder"
begin

chapter \<open>The model\<close>

section \<open>Python exceptions and sequence primitives\<close>

text \<open>
  The exceptions the modelled code can raise. A function of the source that can raise
  returns \<open>exn + 'a\<close>, with \<open>Inl\<close> for the exception.
\<close>

datatype exn =
    ValueError
  | FileNotFoundError
  | NotADirectoryError
  | IsADirectoryError
  | UnpicklingError
  | EOFError
  | PermissionError
  | KeyError
  | ExternalError

text \<open>
  Slice indices: a negative index counts from the end, and the result is clamped to
  \<open>[0, len]\<close>, as in \<open>s[i:j]\<close>, \<open>s.rfind(c, i, j)\<close>.
\<close>

definition clamp_index :: "nat \<Rightarrow> int \<Rightarrow> nat" where
  "clamp_index n i = (if i < 0 then nat (max 0 (i + int n)) else min (nat i) n)"

definition py_slice :: "'a list \<Rightarrow> int \<Rightarrow> int \<Rightarrow> 'a list" where
  "py_slice xs i j =
     (let s = clamp_index (length xs) i; e = clamp_index (length xs) j
      in take (e - s) (drop s xs))"

text \<open>\<open>xs[:k]\<close>: the first \<open>k\<close> elements, or all but the last \<open>-k\<close> when \<open>k\<close> is negative.\<close>

definition py_prefix :: "'a list \<Rightarrow> int \<Rightarrow> 'a list" where
  "py_prefix xs k = take (clamp_index (length xs) k) xs"

section \<open>Vector store (vector\_store.py)\<close>

type_synonym meta_dict = "(string \<times> string) list"

text \<open>
  \<open>VectorDocument\<close>. The field \<open>id\<close> is named \<open>doc_id\<close> here. An embedding is a
  one-dimensional array of finite floating-point numbers, so \<open>embedding.shape[0]\<close>
  is its length; each entry is taken as the real number it denotes.
\<close>

record vector_document =
  doc_id :: string
  content :: string
  embedding :: "real list"
  metadata :: meta_dict

record vector_store =
  dimension :: int
  documents :: "vector_document list"
  index_to_id :: "nat \<rightharpoonup> string"

definition init_store :: "int \<Rightarrow> vector_store" where
  "init_store d = \<lparr>dimension = d, documents = [], index_to_id = Map.empty\<rparr>"

text \<open>
  \<open>add_document\<close> returns the outcome of the call together with the store after it:
  the exception is raised before anything is mutated.
\<close>

definition add_document ::
  "string \<Rightarrow> string \<Rightarrow> real list \<Rightarrow> meta_dict option \<Rightarrow> vector_store
     \<Rightarrow> (exn + unit) \<times> vector_store" where
  "add_document did c e md s =
     (if int (length e) \<noteq> dimension s then (Inl ValueError, s)
      else
        let doc = \<lparr>doc_id = did, content = c, embedding = e,
                   metadata = (case md of None \<Rightarrow> [] | Some m \<Rightarrow> m)\<rparr>;
            docs = documents s @ [doc]
        in (Inr (),
            s\<lparr>documents := docs,
              index_to_id := (index_to_id s)(length docs - 1 \<mapsto> did)\<rparr>))"

text \<open>The position of the first document with the given id, as the loop of \<open>delete\<close> finds it.\<close>

fun first_index :: "string \<Rightarrow> vector_document list \<Rightarrow> nat option" where
  "first_index did [] = None"
| "first_index did (d # ds) =
     (if doc_id d = did then Some 0
      else (case first_index did ds of None \<Rightarrow> None | Some i \<Rightarrow> Some (Suc i)))"

text \<open>\<open>del xs[i]\<close> for a valid position \<open>i\<close>.\<close>

definition del_at :: "nat \<Rightarrow> 'a list \<Rightarrow> 'a list" where
  "del_at i xs = take i xs @ drop (Suc i) xs"

text \<open>The dictionary \<open>{j: d.id for j, d in enumerate(docs)}\<close>.\<close>

definition enumerate_ids :: "vector_document list \<Rightarrow> (nat \<rightharpoonup> string)" where
  "enumerate_ids docs = map_of (enumerate 0 (map doc_id docs))"

definition delete :: "string \<Rightarrow> vector_store \<Rightarrow> bool \<times> vector_store" where
  "delete did s =
     (case first_index did (documents s) of
        None \<Rightarrow> (False, s)
      | Some i \<Rightarrow>
          (let docs = del_at i (documents s)
           in (True, s\<lparr>documents := docs, index_to_id := enumerate_ids docs\<rparr>)))"

definition clear :: "vector_store \<Rightarrow> vector_store" where
  "clear s = s\<lparr>documents := [], index_to_id := Map.empty\<rparr>"

definition size_store :: "vector_store \<Rightarrow> nat" where
  "size_store s = length (documents s)"

fun get_by_id :: "string \<Rightarrow> vector_document list \<Rightarrow> vector_document option" where
  "get_by_id did [] = None"
| "get_by_id did (d # ds) = (if doc_id d = did then Some d else get_by_id did ds)"

text \<open>The states a store can reach from its constructor by the three mutators.\<close>

inductive reachable :: "vector_store \<Rightarrow> bool" where
  reach_init: "reachable (init_store d)"
| reach_add: "reachable s \<Longrightarrow> reachable (snd (add_document did c e md s))"
| reach_delete: "reachable s \<Longrightarrow> reachable (snd (delete did s))"
| reach_clear: "reachable s \<Longrightarrow> reachable (clear s)"

definition index_consistent :: "vector_store \<Rightarrow> bool" where
  "index_consistent s \<longleftrightarrow>
     dom (index_to_id s) = {i. i < length (documents s)} \<and>
     (\<forall>i < length (documents s). index_to_id s i = Some (doc_id (documents s ! i)))"

text \<open>A store used to exercise the mutators: two insertions, then a deletion.\<close>

definition demo_store :: vector_store where
  "demo_store =
     snd (delete ''a''
       (snd (add_document ''b'' ''second'' [0, 1] None
         (snd (add_document ''a'' ''first'' [1, 0] None (init_store 2))))))"


subsection \<open>Floating-point numbers\<close>

text \<open>
  A similarity is a float: \<open>nan\<close>, one of the two infinities, or a finite number, which
  is taken as the real number it denotes (the two zeros denote the same number and
  compare equal). Python compares floats exactly: \<open>x >= y\<close> is false when either side
  is \<open>nan\<close> and is the order of the extended reals otherwise. \<open>float_rank\<close> places
  the values in that order; \<open>nan\<close> is given a place of its own, which no comparison
  below ever looks at.
\<close>

datatype float64 = NaN | NegInf | Fin real | PosInf

fun float_rank :: "float64 \<Rightarrow> int \<times> real" where
  "float_rank NegInf = (- 1, 0)"
| "float_rank (Fin r) = (0, r)"
| "float_rank PosInf = (1, 0)"
| "float_rank NaN = (2, 0)"

definition float_ge :: "float64 \<Rightarrow> float64 \<Rightarrow> bool" where
  "float_ge x y \<longleftrightarrow> x \<noteq> NaN \<and> y \<noteq> NaN \<and> float_rank y \<le> float_rank x"

text \<open>
  The arithmetic of numpy is not part of the repository, and it rounds, overflows and
  underflows: \<open>np.dot\<close> and \<open>np.linalg.norm\<close> on one-dimensional arrays, and the
  product and the quotient of two numpy scalars, are taken as parameters. Whatever is
  proved for every such arithmetic holds for the one the program runs on.
\<close>

record numpy =
  np_dot :: "real list \<Rightarrow> real list \<Rightarrow> float64"
  np_norm :: "real list \<Rightarrow> float64"
  np_multiply :: "float64 \<Rightarrow> float64 \<Rightarrow> float64"
  np_divide :: "float64 \<Rightarrow> float64 \<Rightarrow> float64"

text \<open>
  An arithmetic for examples, without rounding: the operations on real numbers, with
  the quotients by zero as numpy gives them.
\<close>

fun exact_multiply :: "float64 \<Rightarrow> float64 \<Rightarrow> float64" where
  "exact_multiply (Fin x) (Fin y) = Fin (x * y)"
| "exact_multiply x y = NaN"

fun exact_divide :: "float64 \<Rightarrow> float64 \<Rightarrow> float64" where
  "exact_divide (Fin x) (Fin y) =
     (if y \<noteq> 0 then Fin (x / y)
      else if x = 0 then NaN else if 0 < x then PosInf else NegInf)"
| "exact_divide x y = NaN"

definition exact_numpy :: numpy where
  "exact_numpy =
     \<lparr>np_dot = (\<lambda>a b. Fin (sum_list (map2 (*) a b))),
      np_norm = (\<lambda>a. Fin (sqrt (sum_list (map (\<lambda>x. x * x) a)))),
      np_multiply = exact_multiply,
      np_divide = exact_divide\<rparr>"

subsection \<open>Similarity search\<close>

text \<open>
  \<open>cosine_similarity\<close>: \<open>np.dot(a, b) / (np.linalg.norm(a) * np.linalg.norm(b))\<close>.
  \<open>np.dot\<close> of two one-dimensional arrays raises \<open>ValueError\<close> when their lengths
  differ. A division by zero of numpy scalars gives \<open>nan\<close> or an infinity with a
  warning, not an exception.
\<close>

definition cosine_similarity :: "numpy \<Rightarrow> real list \<Rightarrow> real list \<Rightarrow> exn + float64" where
  "cosine_similarity np a b =
     (if length a \<noteq> length b then Inl ValueError
      else Inr (np_divide np (np_dot np a b) (np_multiply np (np_norm np a) (np_norm np b))))"

text \<open>
  The loop of \<open>search\<close> over the documents, with the list \<open>similarities\<close> as
  accumulator.
\<close>

fun search_loop ::
  "numpy \<Rightarrow> real list \<Rightarrow> float64 \<Rightarrow> vector_document list \<Rightarrow> (vector_document \<times> float64) list
     \<Rightarrow> exn + (vector_document \<times> float64) list" where
  "search_loop np q t [] sims = Inr sims"
| "search_loop np q t (doc # docs) sims =
     (case cosine_similarity np q (embedding doc) of
        Inl e \<Rightarrow> Inl e
      | Inr similarity \<Rightarrow>
          search_loop np q t docs
            (if float_ge similarity t then sims @ [(doc, similarity)] else sims))"

text \<open>
  \<open>xs.sort(key=key, reverse=True)\<close> for float keys none of which is \<open>nan\<close>: the list
  is reversed, sorted by a stable ascending sort, and reversed again. In \<open>search\<close> no
  key is \<open>nan\<close>, since every entry of the list has passed the test \<open>>=\<close>.
\<close>

definition py_sort_reverse :: "('a \<Rightarrow> float64) \<Rightarrow> 'a list \<Rightarrow> 'a list" where
  "py_sort_reverse key xs = rev (sort_key (\<lambda>x. float_rank (key x)) (rev xs))"

definition search ::
  "numpy \<Rightarrow> real list \<Rightarrow> int \<Rightarrow> float64 \<Rightarrow> vector_store
     \<Rightarrow> exn + (vector_document \<times> float64) list" where
  "search np q top_k t s =
     (if length (documents s) = 0 then Inr []
      else (case search_loop np q t (documents s) [] of
              Inl e \<Rightarrow> Inl e
            | Inr sims \<Rightarrow> Inr (py_prefix (py_sort_reverse snd sims) top_k)))"


text \<open>
  The scenario of the specification: dimension 3, the entries \<open>a = [1,0,0]\<close>,
  \<open>b = [0,1,0]\<close> and \<open>c = [0.9,0.1,0]\<close> inserted in this order.
\<close>

definition doc_a :: vector_document where
  "doc_a = \<lparr>doc_id = ''a'', content = ''alpha'', embedding = [1, 0, 0], metadata = []\<rparr>"

definition doc_b :: vector_document where
  "doc_b = \<lparr>doc_id = ''b'', content = ''beta'', embedding = [0, 1, 0], metadata = []\<rparr>"

definition doc_c :: vector_document where
  "doc_c = \<lparr>doc_id = ''c'', content = ''gamma'', embedding = [9 / 10, 1 / 10, 0], metadata = []\<rparr>"

definition scenario_store :: vector_store where
  "scenario_store =
     snd (add_document ''c'' ''gamma'' [9 / 10, 1 / 10, 0] None
       (snd (add_document ''b'' ''beta'' [0, 1, 0] None
         (snd (add_document ''a'' ''alpha'' [1, 0, 0] None (init_store 3))))))"

section \<open>Chunker (chunking.py)\<close>

text \<open>
  A text is a list of characters; each \<open>char\<close> stands for one character of the Python
  string. \<open>text.rfind(c, i, j)\<close> is the highest position of \<open>c\<close> in the slice
  \<open>[i, j)\<close> (indices adjusted as for slices), or \<open>-1\<close>.
\<close>

definition py_rfind :: "char \<Rightarrow> string \<Rightarrow> int \<Rightarrow> int \<Rightarrow> int" where
  "py_rfind c text i j =
     (let s = clamp_index (length text) i; e = clamp_index (length text) j;
          hits = filter (\<lambda>k. text ! k = c) [s..<e]
      in if hits = [] then - 1 else int (last hits))"

text \<open>The characters \<open>str.strip()\<close> removes, among the code points below 256.\<close>

definition is_space :: "char \<Rightarrow> bool" where
  "is_space c \<longleftrightarrow>
     (of_char c :: nat) \<in> {9, 10, 11, 12, 13, 28, 29, 30, 31, 32, 133, 160}"

definition py_strip :: "string \<Rightarrow> string" where
  "py_strip s = rev (dropWhile is_space (rev (dropWhile is_space s)))"

record chunker =
  chunk_size :: int
  chunk_overlap :: int

text \<open>
  The value of \<open>end\<close> when the chunk is cut in one iteration of the loop of
  \<open>chunk_by_tokens\<close> that begins at \<open>start\<close>: the right edge \<open>start + chunk_size\<close>,
  moved back to just after the last period or newline of the window when the edge is
  inside the text and that character lies after \<open>start\<close>.
\<close>

definition window_end :: "chunker \<Rightarrow> string \<Rightarrow> int \<Rightarrow> int" where
  "window_end c text start =
     (let end_idx = start + chunk_size c
      in if end_idx < int (length text) then
           (let period_idx = py_rfind (CHR ''.'') text start end_idx;
                newline_idx = py_rfind (CHR 0x0A) text start end_idx;
                break_idx = max period_idx newline_idx
            in if break_idx > start then break_idx + 1 else end_idx)
         else end_idx)"

text \<open>One iteration of the loop, on the pair of \<open>start\<close> and \<open>chunks\<close>.\<close>

definition chunk_step :: "chunker \<Rightarrow> string \<Rightarrow> int \<times> string list \<Rightarrow> int \<times> string list" where
  "chunk_step c text st =
     (let start = fst st; chunks = snd st;
          end_idx = window_end c text start;
          chunk = py_strip (py_slice text start end_idx)
      in (end_idx - chunk_overlap c, if chunk \<noteq> [] then chunks @ [chunk] else chunks))"

text \<open>The loop \<open>while start < len(text)\<close>; the value \<open>None\<close> is a loop that never ends.\<close>

partial_function (option) chunk_loop ::
  "chunker \<Rightarrow> string \<Rightarrow> int \<times> string list \<Rightarrow> string list option" where
  "chunk_loop c text st =
     (if fst st < int (length text) then chunk_loop c text (chunk_step c text st)
      else Some (snd st))"

declare chunk_loop.simps [code]

definition chunk_by_tokens :: "chunker \<Rightarrow> string \<Rightarrow> string list option" where
  "chunk_by_tokens c text = (if text = [] then Some [] else chunk_loop c text (0, []))"

text \<open>
  Two chunker configurations used below: one on which the loop never ends, with its
  text, and one whose first window is shrunk to a sentence boundary.
\<close>

definition looping_chunker :: chunker where
  "looping_chunker = \<lparr>chunk_size = 10, chunk_overlap = 5\<rparr>"

definition looping_text :: string where
  "looping_text = ''a.bbbbbbbbbbbbbbbbbbbbbbb''"

definition shrinking_chunker :: chunker where
  "shrinking_chunker = \<lparr>chunk_size = 10, chunk_overlap = 2\<rparr>"

text \<open>
  The default configuration of the chunker, and a text of 1003 characters that begins
  with a short sentence and has no other period or newline.
\<close>

definition default_chunker :: chunker where
  "default_chunker = \<lparr>chunk_size = 500, chunk_overlap = 50\<rparr>"

definition title_text :: string where
  "title_text = ''Hi.'' @ replicate 1000 (CHR ''a'')"

section \<open>Cache (cache.py)\<close>

subsection \<open>Keys\<close>

text \<open>
  The data a key is generated from: the values \<open>json.dumps\<close> serialises, with
  dictionaries keyed by strings. A dictionary is the list of its items in insertion
  order, with distinct keys.
\<close>

datatype json =
    JNull
  | JBool bool
  | JInt int
  | JStr string
  | JList "json list"
  | JDict "(string \<times> json) list"

text \<open>Decimal and hexadecimal digits, and \<open>str(n)\<close> for an integer.\<close>

definition digit_char :: "nat \<Rightarrow> char" where
  "digit_char d = ''0123456789abcdef'' ! d"

fun show_nat :: "nat \<Rightarrow> string" where
  "show_nat n = (if n < 10 then [digit_char n] else show_nat (n div 10) @ [digit_char (n mod 10)])"

declare show_nat.simps [simp del]

definition show_int :: "int \<Rightarrow> string" where
  "show_int i = (if i < 0 then CHR ''-'' # show_nat (nat (- i)) else show_nat (nat i))"

text \<open>
  A string in JSON with \<open>ensure_ascii\<close>: the backslash, the double quote and every
  character outside the printable ASCII range are escaped.
\<close>

definition escape_char :: "char \<Rightarrow> string" where
  "escape_char c =
     (if c = CHR 0x5C then [CHR 0x5C, CHR 0x5C]
      else if c = CHR 0x22 then [CHR 0x5C, CHR 0x22]
      else if c = CHR 0x08 then [CHR 0x5C, CHR ''b'']
      else if c = CHR 0x0C then [CHR 0x5C, CHR ''f'']
      else if c = CHR 0x0A then [CHR 0x5C, CHR ''n'']
      else if c = CHR 0x0D then [CHR 0x5C, CHR ''r'']
      else if c = CHR 0x09 then [CHR 0x5C, CHR ''t'']
      else if (of_char c :: nat) < 32 \<or> 126 < (of_char c :: nat) then
        [CHR 0x5C, CHR ''u'', CHR ''0'', CHR ''0'',
         digit_char (of_char c div 16), digit_char (of_char c mod 16)]
      else [c])"

definition json_string :: "string \<Rightarrow> string" where
  "json_string s = [CHR 0x22] @ concat (map escape_char s) @ [CHR 0x22]"

text \<open>\<open>sep.join(parts)\<close>.\<close>

fun py_join :: "string \<Rightarrow> string list \<Rightarrow> string" where
  "py_join sep [] = []"
| "py_join sep [x] = x"
| "py_join sep (x # y # ys) = x @ sep @ py_join sep (y # ys)"

text \<open>
  \<open>json.dumps(data, sort_keys=True)\<close>, with the default separators. The items of a
  dictionary are sorted before they are written; their keys are distinct, so the order
  of the items is the order of their keys, and Python orders strings by code point.
\<close>

function (sequential) json_dumps :: "json \<Rightarrow> string" where
  "json_dumps JNull = ''null''"
| "json_dumps (JBool b) = (if b then ''true'' else ''false'')"
| "json_dumps (JInt i) = show_int i"
| "json_dumps (JStr s) = json_string s"
| "json_dumps (JList xs) = ''['' @ py_join '', '' (map json_dumps xs) @ '']''"
| "json_dumps (JDict kvs) =
     ''{'' @ py_join '', ''
        (map (\<lambda>kv. json_string (fst kv) @ '': '' @ json_dumps (snd kv)) (sort_key fst kvs)) @ ''}''"
  by pat_completeness auto
termination
proof (relation "measure size")
  show "wf (measure size)" by simp
next
  fix xs and x :: json
  assume "x \<in> set xs"
  then have "size x < Suc (size_list size xs)"
    by (induction xs) auto
  then show "(x, JList xs) \<in> measure size" by simp
next
  fix kvs :: "(string \<times> json) list" and kv
  assume "kv \<in> set (sort_key fst kvs)"
  then have "kv \<in> set kvs" by simp
  then have "size (snd kv) < Suc (size_list (size_prod (\<lambda>_. 0) size) kvs)"
    by (induction kvs) auto
  then show "(snd kv, JDict kvs) \<in> measure size" by simp
qed

text \<open>\<open>str(data)\<close> for a value that is neither a dictionary nor a list.\<close>

fun py_str :: "json \<Rightarrow> string" where
  "py_str JNull = ''None''"
| "py_str (JBool b) = (if b then ''True'' else ''False'')"
| "py_str (JInt i) = show_int i"
| "py_str (JStr s) = s"
| "py_str v = json_dumps v"

text \<open>
  \<open>_generate_key\<close>. The digest \<open>hashlib.sha256(s.encode()).hexdigest()\<close> is a
  library function, taken as the parameter \<open>sha256\<close>.
\<close>

definition generate_key :: "(string \<Rightarrow> string) \<Rightarrow> json \<Rightarrow> string" where
  "generate_key sha256 data =
     (let data_str = (case data of
                        JDict kvs \<Rightarrow> json_dumps data
                      | JList xs \<Rightarrow> json_dumps data
                      | _ \<Rightarrow> py_str data)
      in sha256 data_str)"


subsection \<open>The file system\<close>

text \<open>
  What reading a cache file gives. \<open>Entry v t\<close> is the pickle of
  \<open>{'value': v, 'timestamp': t}\<close> that \<open>set\<close> writes; a value \<open>v\<close> is never Python's
  \<open>None\<close>, which callers cannot tell from a miss. \<open>Foreign_pickle\<close> is a well-formed
  pickle of a dictionary without the key \<open>'value'\<close> (the subscript raises \<open>KeyError\<close>),
  \<open>Corrupt_pickle\<close> is a file on which \<open>pickle.load\<close> raises \<open>UnpicklingError\<close>, and
  \<open>Empty_file\<close> is a file of zero bytes, on which it raises \<open>EOFError\<close>.
\<close>

datatype 'v file_data =
    Entry 'v real
  | Foreign_pickle
  | Corrupt_pickle
  | Empty_file

text \<open>
  The file system is a map from locations to what is there: a directory or a file, each
  with the modification time the file system keeps for it. A location is the list of
  the names on the way from the root \<open>/\<close>, which is the location \<open>[]\<close>. Times are
  seconds as real numbers; every operation that reads the clock takes the reading as an
  argument. Symbolic links, permissions, the limits of the platform on the length of a
  name or a path, and a device without space are not modelled.
\<close>

type_synonym location = "string list"

datatype 'v node = Dir real | File "'v file_data" real

fun st_mtime :: "'v node \<Rightarrow> real" where
  "st_mtime (Dir m) = m"
| "st_mtime (File d m) = m"

text \<open>
  The cache manager: its time to live, the location that its \<open>cache_dir\<close> names, and
  the file system it works on.
\<close>

record 'v cache_manager =
  ttl :: int
  cache_dir :: location
  disk :: "location \<rightharpoonup> 'v node"

text \<open>
  The state after the constructor has run, with the default \<open>cache_dir\<close>, in a working
  directory \<open>/\<close> that held nothing: the cache directory and the three fixed categories
  exist.
\<close>

definition new_cache :: "int \<Rightarrow> 'v cache_manager" where
  "new_cache t =
     \<lparr>ttl = t, cache_dir = [''.cache''],
      disk = [[] \<mapsto> Dir 0,
              [''.cache''] \<mapsto> Dir 0,
              [''.cache'', ''embeddings''] \<mapsto> Dir 0,
              [''.cache'', ''queries''] \<mapsto> Dir 0,
              [''.cache'', ''responses''] \<mapsto> Dir 0]\<rparr>"

text \<open>
  \<open>s.split('/')\<close>, and the parts that \<open>pathlib\<close> keeps of a path segment: the empty
  names and the names \<open>.\<close> are dropped, the names \<open>..\<close> are kept.
\<close>

fun split_path :: "string \<Rightarrow> string list" where
  "split_path [] = [[]]"
| "split_path (c # cs) =
     (if c = CHR ''/'' then [] # split_path cs
      else (case split_path cs of
              [] \<Rightarrow> [[c]]
            | p # ps \<Rightarrow> (c # p) # ps))"

definition path_parts :: "string \<Rightarrow> string list" where
  "path_parts s = filter (\<lambda>p. p \<noteq> [] \<and> p \<noteq> ''.'') (split_path s)"

definition is_absolute :: "string \<Rightarrow> bool" where
  "is_absolute s \<longleftrightarrow> take 1 s = ''/''"

text \<open>
  \<open>_get_cache_path\<close>: \<open>self.cache_dir / category / f"{key}.pkl"\<close>. Joining a segment
  that begins with \<open>/\<close> discards what is to its left. The path is the location where
  its resolution starts (the root, or the cache directory) and the names still to be
  resolved.
\<close>

definition get_cache_path ::
  "'v cache_manager \<Rightarrow> string \<Rightarrow> string \<Rightarrow> location \<times> string list" where
  "get_cache_path c key category =
     (let name = key @ ''.pkl''
      in if is_absolute name then ([], path_parts name)
         else if is_absolute category then ([], path_parts category @ path_parts name)
         else (cache_dir c, path_parts category @ path_parts name))"

text \<open>
  The resolution of names by the operating system, from the directory \<open>cur\<close>: every
  name is looked up in a directory that must exist, \<open>..\<close> is the parent directory (the
  root is its own parent), and the result is the location that the last name denotes,
  whether or not anything is there.
\<close>

fun walk :: "(location \<rightharpoonup> 'v node) \<Rightarrow> location \<Rightarrow> string list \<Rightarrow> exn + location" where
  "walk d cur [] = Inr cur"
| "walk d cur (p # ps) =
     (case d cur of
        None \<Rightarrow> Inl FileNotFoundError
      | Some (File x m) \<Rightarrow> Inl NotADirectoryError
      | Some (Dir m) \<Rightarrow> walk d (if p = ''..'' then butlast cur else cur @ [p]) ps)"

text \<open>
  The location of a path: Python refuses a path with a null character (\<open>ValueError\<close>)
  before the operating system sees it.
\<close>

definition locate :: "'v cache_manager \<Rightarrow> location \<times> string list \<Rightarrow> exn + location" where
  "locate c file_path =
     (if CHR 0x00 \<in> set (concat (snd file_path)) then Inl ValueError
      else walk (disk c) (fst file_path) (snd file_path))"

text \<open>
  \<open>_is_expired\<close>. \<open>file_path.exists()\<close> is false when the path cannot be resolved or
  nothing is at its location; otherwise the age is taken from the modification time of
  what is there.
\<close>

definition is_expired :: "'v cache_manager \<Rightarrow> real \<Rightarrow> location \<times> string list \<Rightarrow> bool" where
  "is_expired c now file_path =
     (case locate c file_path of
        Inl e \<Rightarrow> True
      | Inr target \<Rightarrow>
          (case disk c target of
             None \<Rightarrow> True
           | Some n \<Rightarrow> (let file_age = now - st_mtime n in file_age > real_of_int (ttl c))))"

text \<open>
  \<open>set\<close>: \<open>open(cache_path, 'wb')\<close> raises when the path cannot be resolved (a
  directory on the way does not exist, or is a file) or its location is a directory.
  Otherwise the file is created or truncated and then written; the file system stamps it
  with the time of the write, and stamps the directory too when the file is new.
\<close>

definition cache_set ::
  "string \<Rightarrow> 'v \<Rightarrow> string \<Rightarrow> real \<Rightarrow> 'v cache_manager \<Rightarrow> exn + 'v cache_manager" where
  "cache_set key v category now c =
     (let cache_path = get_cache_path c key category
      in case locate c cache_path of
           Inl e \<Rightarrow> Inl e
         | Inr target \<Rightarrow>
             (case disk c target of
                Some (Dir m) \<Rightarrow> Inl IsADirectoryError
              | Some (File x m) \<Rightarrow>
                  Inr (c\<lparr>disk := (disk c)(target \<mapsto> File (Entry v now) now)\<rparr>)
              | None \<Rightarrow>
                  Inr (c\<lparr>disk := (disk c)(butlast target \<mapsto> Dir now,
                                           target \<mapsto> File (Entry v now) now)\<rparr>)))"

text \<open>\<open>open(cache_path, 'rb')\<close>: the content of the file at the path, if there is one.\<close>

definition open_rb :: "'v cache_manager \<Rightarrow> location \<times> string list \<Rightarrow> exn + 'v file_data" where
  "open_rb c file_path =
     (case locate c file_path of
        Inl e \<Rightarrow> Inl e
      | Inr target \<Rightarrow>
          (case disk c target of
             None \<Rightarrow> Inl FileNotFoundError
           | Some (Dir m) \<Rightarrow> Inl IsADirectoryError
           | Some (File x m) \<Rightarrow> Inr x))"

text \<open>\<open>pickle.load(f)['value']\<close> on a file with the given content.\<close>

fun pickle_load_value :: "'v file_data \<Rightarrow> exn + 'v" where
  "pickle_load_value (Entry v t) = Inr v"
| "pickle_load_value Foreign_pickle = Inl KeyError"
| "pickle_load_value Corrupt_pickle = Inl UnpicklingError"
| "pickle_load_value Empty_file = Inl EOFError"

text \<open>
  \<open>get\<close>: a miss for an absent or expired file; otherwise the file is opened and
  loaded, and of the exceptions raised there \<open>FileNotFoundError\<close> and
  \<open>UnpicklingError\<close> are caught.
\<close>

definition cache_get ::
  "string \<Rightarrow> string \<Rightarrow> real \<Rightarrow> 'v cache_manager \<Rightarrow> exn + 'v option" where
  "cache_get key category now c =
     (let cache_path = get_cache_path c key category
      in if is_expired c now cache_path then Inr None
         else (case (case open_rb c cache_path of
                       Inl e \<Rightarrow> Inl e
                     | Inr x \<Rightarrow> pickle_load_value x) of
                 Inr v \<Rightarrow> Inr (Some v)
               | Inl e \<Rightarrow>
                   if e = FileNotFoundError \<or> e = UnpicklingError then Inr None
                   else Inl e))"

text \<open>The default of the parameter \<open>category\<close> of \<open>set\<close> and of \<open>get\<close>.\<close>

definition default_category :: string where
  "default_category = ''general''"

definition cache_query_result ::
  "(string \<Rightarrow> string) \<Rightarrow> string \<Rightarrow> 'v \<Rightarrow> real \<Rightarrow> 'v cache_manager \<Rightarrow> exn + 'v cache_manager" where
  "cache_query_result sha256 query result now c =
     cache_set (generate_key sha256 (JStr query)) result ''queries'' now c"

definition get_cached_query ::
  "(string \<Rightarrow> string) \<Rightarrow> string \<Rightarrow> real \<Rightarrow> 'v cache_manager \<Rightarrow> exn + 'v option" where
  "get_cached_query sha256 query now c =
     cache_get (generate_key sha256 (JStr query)) ''queries'' now c"

text \<open>A cache whose \<open>queries\<close> category holds one fresh, empty file.\<close>

definition empty_file_cache :: "string cache_manager" where
  "empty_file_cache =
     (new_cache 3600)\<lparr>disk :=
        (disk (new_cache 3600))([''.cache'', ''queries'', ''k.pkl''] \<mapsto> File Empty_file 100)\<rparr>"

section \<open>Query processor (query\_processor.py)\<close>

text \<open>
  A formatted search result: the dictionary with the keys \<open>content\<close>, \<open>score\<close>,
  \<open>metadata\<close> and \<open>doc_id\<close> that \<open>process_query\<close> builds.
\<close>

record search_hit =
  hit_content :: string
  hit_score :: float64
  hit_metadata :: meta_dict
  hit_doc_id :: string

definition format_result :: "vector_document \<times> float64 \<Rightarrow> search_hit" where
  "format_result r =
     \<lparr>hit_content = content (fst r), hit_score = snd r,
      hit_metadata = metadata (fst r), hit_doc_id = doc_id (fst r)\<rparr>"

text \<open>
  \<open>process_query\<close>. The embedding generator is not part of the sources; its method
  \<open>embed_query\<close> is the parameter of that name, and may raise. The arithmetic of
  the search is the parameter \<open>np\<close>.
\<close>

definition process_query ::
  "numpy \<Rightarrow> (string \<Rightarrow> exn + real list) \<Rightarrow> string \<Rightarrow> int \<Rightarrow> float64 \<Rightarrow> vector_store
     \<Rightarrow> exn + search_hit list" where
  "process_query np embed_query query top_k threshold store =
     (case embed_query query of
        Inl e \<Rightarrow> Inl e
      | Inr query_embedding \<Rightarrow>
          (case search np query_embedding top_k threshold store of
             Inl e \<Rightarrow> Inl e
           | Inr results \<Rightarrow> Inr (map format_result results)))"

text \<open>
  The loop of \<open>get_context_for_generation\<close> over the results, on the pair of
  \<open>context_parts\<close> and \<open>total_length\<close>; it breaks at the first result that does not fit.
\<close>

fun context_loop :: "int \<Rightarrow> search_hit list \<Rightarrow> string list \<times> int \<Rightarrow> string list \<times> int" where
  "context_loop max_context_length [] acc = acc"
| "context_loop max_context_length (result # results) (context_parts, total_length) =
     (let c = hit_content result
      in if total_length + int (length c) \<le> max_context_length
         then context_loop max_context_length results
                (context_parts @ [c], total_length + int (length c))
         else (context_parts, total_length))"

record context_data =
  ctx_query :: string
  ctx_context :: string
  ctx_sources :: "search_hit list"
  ctx_num_sources :: nat

text \<open>
  \<open>get_context_for_generation\<close>: the results of \<open>process_query\<close> with its default
  threshold 0.7, then the loop and the join with two newlines.
\<close>

definition assemble_context :: "string \<Rightarrow> int \<Rightarrow> search_hit list \<Rightarrow> context_data" where
  "assemble_context query max_context_length results =
     (let context_parts = fst (context_loop max_context_length results ([], 0))
      in \<lparr>ctx_query = query,
          ctx_context = py_join [CHR 0x0A, CHR 0x0A] context_parts,
          ctx_sources = results,
          ctx_num_sources = length context_parts\<rparr>)"

definition get_context_for_generation ::
  "numpy \<Rightarrow> (string \<Rightarrow> exn + real list) \<Rightarrow> string \<Rightarrow> int \<Rightarrow> int \<Rightarrow> vector_store
     \<Rightarrow> exn + context_data" where
  "get_context_for_generation np embed_query query top_k max_context_length store =
     (case process_query np embed_query query top_k (Fin (7 / 10)) store of
        Inl e \<Rightarrow> Inl e
      | Inr results \<Rightarrow> Inr (assemble_context query max_context_length results))"

text \<open>An embedding generator for examples: every query is embedded as \<open>[1, 0, 0]\<close>.\<close>

definition demo_embed :: "string \<Rightarrow> exn + real list" where
  "demo_embed query = Inr [1, 0, 0]"

section \<open>Response generator and application (response\_generator.py, main.py)\<close>

text \<open>
  \<open>generate_answer\<close> and \<open>generate_with_sources\<close>. The chat completion of the
  language model is an external service: the parameter \<open>llm\<close> gives its answer to a
  query and a context (the prompts are built from these two), or raises. Of the
  dictionary \<open>answer_data\<close> the configured model name is left out.
\<close>

record source_info =
  src_doc_id :: string
  src_score :: float64
  src_snippet :: string

record answer_data =
  ad_query :: string
  ad_answer :: string
  ad_context_used :: string
  ad_sources :: "source_info list"

definition generate_answer ::
  "(string \<Rightarrow> string \<Rightarrow> exn + string) \<Rightarrow> string \<Rightarrow> string \<Rightarrow> exn + answer_data" where
  "generate_answer llm query context =
     (case llm query context of
        Inl e \<Rightarrow> Inl e
      | Inr answer \<Rightarrow>
          Inr \<lparr>ad_query = query, ad_answer = answer,
               ad_context_used =
                 (if length context > 200 then py_prefix context 200 @ ''...'' else context),
               ad_sources = []\<rparr>)"

definition generate_with_sources ::
  "(string \<Rightarrow> string \<Rightarrow> exn + string) \<Rightarrow> string \<Rightarrow> string \<Rightarrow> search_hit list
     \<Rightarrow> exn + answer_data" where
  "generate_with_sources llm query context sources =
     (case generate_answer llm query context of
        Inl e \<Rightarrow> Inl e
      | Inr answer_data \<Rightarrow>
          Inr (answer_data\<lparr>ad_sources :=
                 map (\<lambda>src. \<lparr>src_doc_id = hit_doc_id src, src_score = hit_score src,
                              src_snippet = py_prefix (hit_content src) 100 @ ''...''\<rparr>)
                     (py_prefix sources 3)\<rparr>))"

text \<open>
  What \<open>DocuMind.query\<close> returns: the success dictionary, or the error details that
  \<open>ErrorHandler.handle_error\<close> builds from a caught exception and the context string.
\<close>

record query_success =
  res_query :: string
  res_answer :: string
  res_sources :: "source_info list"
  res_num_sources :: nat

datatype query_result =
    Success query_success
  | Error_details exn string

text \<open>
  The application state that \<open>query\<close> reads and writes: the caching flag, the cache
  (which holds query results), the vector store, and a log of the calls made to the query
  processor (which embeds the query, searches and assembles the context) and to the
  response generator. The log is not in the source: it records the work done.
\<close>

datatype call = Get_context string | Generate string

record docu_mind =
  use_cache :: bool
  cache :: "query_result cache_manager"
  store :: vector_store
  calls :: "call list"

text \<open>
  \<open>DocuMind.query\<close>. The clock is read when the cache is looked up (\<open>now_get\<close>) and
  when the result is stored (\<open>now_set\<close>). Every exception raised inside the \<open>try\<close>
  block becomes the returned error details.
\<close>

definition query ::
  "(string \<Rightarrow> string) \<Rightarrow> numpy \<Rightarrow> (string \<Rightarrow> exn + real list)
     \<Rightarrow> (string \<Rightarrow> string \<Rightarrow> exn + string)
     \<Rightarrow> string \<Rightarrow> int \<Rightarrow> real \<Rightarrow> real \<Rightarrow> docu_mind \<Rightarrow> query_result \<times> docu_mind" where
  "query sha256 np embed_query llm question top_k now_get now_set app =
     (case (if use_cache app then get_cached_query sha256 question now_get (cache app)
            else Inr None) of
        Inl e \<Rightarrow> (Error_details e ''query'', app)
      | Inr (Some cached_result) \<Rightarrow> (cached_result, app)
      | Inr None \<Rightarrow>
          (let app1 = app\<lparr>calls := calls app @ [Get_context question]\<rparr>
           in case get_context_for_generation np embed_query question top_k 2000 (store app) of
                Inl e \<Rightarrow> (Error_details e ''query'', app1)
              | Inr context_data \<Rightarrow>
                  (let app2 = app1\<lparr>calls := calls app1 @ [Generate question]\<rparr>
                   in case generate_with_sources llm question (ctx_context context_data)
                             (ctx_sources context_data) of
                        Inl e \<Rightarrow> (Error_details e ''query'', app2)
                      | Inr answer_data \<Rightarrow>
                          (let result = Success
                                 \<lparr>res_query = question,
                                  res_answer = ad_answer answer_data,
                                  res_sources = ad_sources answer_data,
                                  res_num_sources = ctx_num_sources context_data\<rparr>
                           in if use_cache app then
                                (case cache_query_result sha256 question result now_set (cache app) of
                                   Inl e \<Rightarrow> (Error_details e ''query'', app2)
                                 | Inr c \<Rightarrow> (result, app2\<lparr>cache := c\<rparr>))
                              else (result, app2)))))"






text \<open>
  The results of \<open>process_query\<close> for the scenario's query (threshold 0.7) in the
  arithmetic without rounding: the entries \<open>a\<close> and \<open>c\<close>.
\<close>

definition scenario_hits :: "search_hit list" where
  "scenario_hits =
     [format_result (doc_a, Fin 1), format_result (doc_c, Fin ((9 / 10) / sqrt (41 / 50)))]"

chapter \<open>Properties\<close>

section \<open>Vector store: insertion and the position index\<close>

lemma enumerate_ids_lookup:
  "enumerate_ids docs i = (if i < length docs then Some (doc_id (docs ! i)) else None)"
proof (cases "i < length docs")
  case True
  have "map_of (zip [0..<length docs] (map doc_id docs)) ([0..<length docs] ! i) = Some (map doc_id docs ! i)"
    using True by (intro map_of_zip_nth) simp_all
  then show ?thesis using True by (simp add: enumerate_ids_def enumerate_eq_zip)
next
  case False
  then have "i \<notin> fst ` set (enumerate 0 (map doc_id docs))" 
    by (auto simp: enumerate_eq_zip  dest!: set_zip_leftD)
  then show ?thesis using False by (simp add: enumerate_ids_def map_of_eq_None_iff)
qed

lemma index_consistent_iff:
  "index_consistent s \<longleftrightarrow>
     (\<forall>i. index_to_id s i =
        (if i < length (documents s) then Some (doc_id (documents s ! i)) else None))"
proof
  assume c: "index_consistent s"
  show "\<forall>i. index_to_id s i =
        (if i < length (documents s) then Some (doc_id (documents s ! i)) else None)"
  proof
    fix i
    show "index_to_id s i =
        (if i < length (documents s) then Some (doc_id (documents s ! i)) else None)"
    proof (cases "i < length (documents s)")
      case True
      then show ?thesis using c by (simp add: index_consistent_def)
    next
      case False
      then have "i \<notin> dom (index_to_id s)" using c by (simp add: index_consistent_def)
      then show ?thesis using False by (simp add: domIff)
    qed
  qed
next
  assume a: "\<forall>i. index_to_id s i =
        (if i < length (documents s) then Some (doc_id (documents s ! i)) else None)"
  have "dom (index_to_id s) = {i. i < length (documents s)}"
    using a by (auto simp: dom_def)
  then show "index_consistent s" using a by (simp add: index_consistent_def)
qed

lemma index_consistent_init: "index_consistent (init_store d)"
  by (simp add: index_consistent_iff init_store_def)

lemma index_consistent_add:
  assumes "index_consistent s"
  shows "index_consistent (snd (add_document did c e md s))"
  using assms
  by (simp add: index_consistent_iff add_document_def Let_def nth_append)

lemma index_consistent_delete:
  assumes "index_consistent s"
  shows "index_consistent (snd (delete did s))"
  using assms
  by (simp add: index_consistent_iff delete_def Let_def enumerate_ids_lookup
           split: option.splits)

lemma index_consistent_clear: "index_consistent (clear s)"
  by (simp add: index_consistent_iff clear_def)

text \<open>
  C10: in every store state reachable by insertions, deletions and clears, the
  position-to-id dictionary has exactly the valid positions as keys, and maps each
  position to the id of the document stored there.
\<close>

theorem reachable_index_consistent:
  "reachable s \<Longrightarrow>
     dom (index_to_id s) = {i. i < length (documents s)} \<and>
     (\<forall>i < length (documents s). index_to_id s i = Some (doc_id (documents s ! i)))"
proof -
  assume "reachable s"
  then have "index_consistent s"
    by (induction rule: reachable.induct)
       (simp_all add: index_consistent_init index_consistent_add index_consistent_delete index_consistent_clear)
  then show ?thesis by (simp add: index_consistent_def)
qed

theorem reachable_index_consistent_witness:
  "reachable demo_store \<and>
   documents demo_store =
     [\<lparr>doc_id = ''b'', content = ''second'', embedding = [0, 1], metadata = []\<rparr>] \<and>
   dom (index_to_id demo_store) = {i. i < length (documents demo_store)} \<and>
   index_to_id demo_store 0 = Some ''b''"
proof -
  have r: "reachable demo_store"
    unfolding demo_store_def by (intro reach_delete reach_add reach_init)
  have d: "documents demo_store =
     [\<lparr>doc_id = ''b'', content = ''second'', embedding = [0, 1], metadata = []\<rparr>]"
    by (simp add: demo_store_def add_document_def delete_def init_store_def del_at_def Let_def)
  show ?thesis
    using r d reachable_index_consistent [OF r] by simp
qed

text \<open>
  C6: inserting an embedding whose length differs from the store's dimension raises the
  dimension error (a \<open>ValueError\<close>) and leaves the store as it was; an embedding of
  the right length is appended as a new document and the call succeeds.
\<close>

theorem add_document_dimension:
  "(int (length e) \<noteq> dimension s \<longrightarrow>
       add_document did c e md s = (Inl ValueError, s)) \<and>
   (int (length e) = dimension s \<longrightarrow>
       fst (add_document did c e md s) = Inr () \<and>
       documents (snd (add_document did c e md s)) =
         documents s @ [\<lparr>doc_id = did, content = c, embedding = e,
                          metadata = (case md of None \<Rightarrow> [] | Some m \<Rightarrow> m)\<rparr>] \<and>
       dimension (snd (add_document did c e md s)) = dimension s)"
  by (simp add: add_document_def Let_def)

theorem add_document_dimension_witness:
  "add_document ''d1'' ''text'' [1, 0] None (init_store 3) = (Inl ValueError, init_store 3) \<and>
   fst (add_document ''d1'' ''text'' [1, 0, 0] None (init_store 3)) = Inr () \<and>
   documents (snd (add_document ''d1'' ''text'' [1, 0, 0] None (init_store 3))) =
     [\<lparr>doc_id = ''d1'', content = ''text'', embedding = [1, 0, 0], metadata = []\<rparr>]"
proof -
  have bad: "int (length [1::real, 0]) \<noteq> dimension (init_store 3)"
    by (simp add: init_store_def)
  have good: "int (length [1::real, 0, 0]) = dimension (init_store 3)"
    by (simp add: init_store_def)
  have docs: "documents (init_store 3) = []"
    by (simp add: init_store_def)
  show ?thesis
    using bad good docs
      add_document_dimension [of "[1, 0]" "init_store 3" "''d1''" "''text''" None]
      add_document_dimension [of "[1, 0, 0]" "init_store 3" "''d1''" "''text''" None]
    by simp
qed


section \<open>Vector store: similarity search\<close>











lemma scenario_documents: "documents scenario_store = [doc_a, doc_b, doc_c]"
  by (simp add: scenario_store_def add_document_def init_store_def Let_def doc_a_def doc_b_def doc_c_def)

lemma scenario_embeddings:
  "embedding doc_a = [1, 0, 0]" "embedding doc_b = [0, 1, 0]"
  "embedding doc_c = [9 / 10, 1 / 10, 0]"
  by (simp_all add: doc_a_def doc_b_def doc_c_def)



lemma sim_c_bounds:
  "993 / 1000 < (9 / 10) / sqrt (41 / 50 :: real)" "(9 / 10) / sqrt (41 / 50 :: real) < 995 / 1000"
proof -
  have lo: "sqrt (41 / 50 :: real) < 9056 / 10000"
    by (rule real_less_lsqrt) (simp_all add: power2_eq_square)
  have hi: "9055 / 10000 < sqrt (41 / 50 :: real)"
    by (rule real_less_rsqrt) (simp add: power2_eq_square)
  have pos: "0 < sqrt (41 / 50 :: real)" by simp
  show "993 / 1000 < (9 / 10) / sqrt (41 / 50 :: real)"
    using lo pos by (simp add: pos_less_divide_eq)
  show "(9 / 10) / sqrt (41 / 50 :: real) < 995 / 1000"
    using hi pos by (simp add: pos_divide_less_eq)
qed

text \<open>The similarities of the scenario in the arithmetic without rounding.\<close>

lemma exact_scenario_similarities:
  "cosine_similarity exact_numpy [1, 0, 0] [1, 0, 0] = Inr (Fin 1)"
  "cosine_similarity exact_numpy [1, 0, 0] [0, 1, 0] = Inr (Fin 0)"
  "cosine_similarity exact_numpy [1, 0, 0] [9 / 10, 1 / 10, 0] = Inr (Fin ((9 / 10) / sqrt (41 / 50)))"
  by (simp_all add: cosine_similarity_def exact_numpy_def)




section \<open>Chunker: the window loop\<close>

lemma chunk_loop_diverges:
  assumes inv: "I st"
    and closed: "\<And>s. I s \<Longrightarrow> fst s < int (length text) \<and> I (chunk_step c text s)"
  shows "chunk_loop c text st = None"
proof (rule ccontr)
  assume "chunk_loop c text st \<noteq> None"
  then obtain y where y: "chunk_loop c text st = Some y" by auto
  have "\<not> (c = c \<and> text = text \<and> I st)"
  proof (rule chunk_loop.raw_induct
      [where P = "\<lambda>a b s z. \<not> (a = c \<and> b = text \<and> I s)", OF _ y])
    fix f a b s z
    assume ih: "\<And>a' b' s' z'. f a' b' s' = Some z' \<Longrightarrow> \<not> (a' = c \<and> b' = text \<and> I s')"
      and body: "(if fst s < int (length b) then f a b (chunk_step a b s) else Some (snd s)) = Some z"
    show "\<not> (a = c \<and> b = text \<and> I s)"
    proof
      assume h: "a = c \<and> b = text \<and> I s"
      from closed [of s] h have lt: "fst s < int (length text)"
        and nxt: "I (chunk_step c text s)" by simp_all
      from body h lt have "f c text (chunk_step c text s) = Some z" by simp
      from ih [OF this] nxt show False by simp
    qed
  qed
  with inv show False by simp
qed

lemma py_rfind_empty_range:
  "clamp_index (length text) j \<le> clamp_index (length text) i \<Longrightarrow> py_rfind ch text i j = - 1"
  by (simp add: py_rfind_def Let_def)

lemma window_end_negative_start:
  assumes o: "1 < chunk_overlap c" "chunk_overlap c \<le> chunk_size c"
    and n: "chunk_size c \<le> int (length text)"
    and s: "- chunk_overlap c \<le> start" "start < - 1"
  shows "window_end c text start = 0"
proof -
  have e: "start + chunk_size c < int (length text)" using o n s by linarith
  have "clamp_index (length text) (start + chunk_size c) \<le> clamp_index (length text) start"
    using o n s by (auto simp: clamp_index_def)
  then have r: "py_rfind ch text start (start + chunk_size c) = - 1" for ch
    by (rule py_rfind_empty_range)
  show ?thesis using e s by (simp add: window_end_def Let_def r)
qed

lemma chunk_loop_negative_start:
  assumes o: "1 < chunk_overlap c" "chunk_overlap c \<le> chunk_size c"
    and n: "chunk_size c \<le> int (length text)"
    and s: "- chunk_overlap c \<le> fst st" "fst st < - 1"
  shows "chunk_loop c text st = None"
proof (rule chunk_loop_diverges
    [where I = "\<lambda>s :: int \<times> string list. - chunk_overlap c \<le> fst s \<and> fst s < - 1"])
  show "- chunk_overlap c \<le> fst st \<and> fst st < - 1" using s by simp
next
  fix s :: "int \<times> string list"
  assume i: "- chunk_overlap c \<le> fst s \<and> fst s < - 1"
  then have "window_end c text (fst s) = 0"
    using window_end_negative_start [OF o n] by simp
  then have "fst (chunk_step c text s) = - chunk_overlap c"
    by (simp add: chunk_step_def Let_def)
  then show "fst s < int (length text) \<and>
      - chunk_overlap c \<le> fst (chunk_step c text s) \<and> fst (chunk_step c text s) < - 1"
    using i o by simp
qed

lemma looping_first_step:
  "chunk_step looping_chunker looping_text (0, []) = (- 3, [''a.''])"
  by code_simp

text \<open>
  C2 (the claim: for every text and every configuration the loop of \<open>chunk_by_tokens\<close>
  reaches \<open>start >= len(text)\<close> after finitely many iterations). The code does not:
  with \<open>chunk_size = 10\<close> and \<open>chunk_overlap = 5\<close> on a text of 25 characters whose only
  period is its second character, the first window is shrunk to end after the period,
  \<open>start\<close> becomes negative, and from then on every iteration sets \<open>end = 0\<close> and
  \<open>start = -5\<close>: the call never returns.
\<close>

theorem chunk_by_tokens_never_returns:
  "chunk_by_tokens looping_chunker looping_text = None"
proof -
  have "chunk_loop looping_chunker looping_text (- 3, [''a.'']) = None"
    by (rule chunk_loop_negative_start) (simp_all add: looping_chunker_def looping_text_def)
  moreover have "chunk_loop looping_chunker looping_text (0, []) =
      chunk_loop looping_chunker looping_text (chunk_step looping_chunker looping_text (0, []))"
    by (subst chunk_loop.simps) (simp add: looping_text_def)
  ultimately show ?thesis
    by (simp add: chunk_by_tokens_def looping_first_step) (simp add: looping_text_def)
qed

text \<open>
  The same happens with the default configuration (size 500, overlap 50) on a text that
  begins with a short sentence: the first window ends after the period at position 2,
  and \<open>start\<close> becomes \<open>-47\<close>.
\<close>

lemma py_rfind_padded:
  assumes "x \<noteq> c" and "length pre \<le> nat j" and "0 \<le> j"
  shows "py_rfind c (pre @ replicate n x) 0 j = py_rfind c pre 0 (int (length pre))"
proof -
  let ?t = "pre @ replicate n x"
  let ?e = "clamp_index (length ?t) j"
  have e: "length pre \<le> ?e" "?e \<le> length ?t"
    using assms(2,3) by (simp_all add: clamp_index_def)
  have split: "[0..<?e] = [0..<length pre] @ [length pre..<?e]"
    using e(1) by (metis le0 upt_add_eq_append le_add_diff_inverse)
  have tail: "filter (\<lambda>k. ?t ! k = c) [length pre..<?e] = []"
    using assms(1) e(2) by (auto simp: filter_empty_conv nth_append)
  have head: "filter (\<lambda>k. ?t ! k = c) [0..<length pre] = filter (\<lambda>k. pre ! k = c) [0..<length pre]"
    by (rule filter_cong) (simp_all add: nth_append)
  have f: "filter (\<lambda>k. ?t ! k = c) [0..<?e] = filter (\<lambda>k. pre ! k = c) [0..<length pre]"
    by (simp only: split filter_append tail head append_Nil2)
  have z: "clamp_index (length ?t) 0 = 0" "clamp_index (length pre) 0 = 0"
    "clamp_index (length pre) (int (length pre)) = length pre"
    by (simp_all add: clamp_index_def)
  show ?thesis
    unfolding py_rfind_def Let_def z f ..
qed

lemma title_window_end: "window_end default_chunker title_text 0 = 3"
proof -
  have p: "py_rfind (CHR ''.'') title_text 0 500 = 2"
    unfolding title_text_def
    by (subst py_rfind_padded) (simp_all add: py_rfind_def clamp_index_def upt_rec_numeral)
  have n: "py_rfind (CHR 0x0A) title_text 0 500 = - 1"
    unfolding title_text_def
    by (subst py_rfind_padded) (simp_all add: py_rfind_def clamp_index_def upt_rec_numeral)
  show ?thesis
    by (simp add: window_end_def default_chunker_def Let_def p n) (simp add: title_text_def)
qed

lemma default_configuration_never_returns:
  "chunk_by_tokens default_chunker title_text = None"
proof -
  have s: "fst (chunk_step default_chunker title_text (0, [])) = - 47"
    by (simp add: chunk_step_def Let_def title_window_end) (simp add: default_chunker_def)
  have "chunk_loop default_chunker title_text (chunk_step default_chunker title_text (0, [])) = None"
    by (rule chunk_loop_negative_start)
       (simp_all add: s, simp_all add: default_chunker_def title_text_def)
  moreover have "chunk_loop default_chunker title_text (0, []) =
      chunk_loop default_chunker title_text (chunk_step default_chunker title_text (0, []))"
    by (subst chunk_loop.simps) (simp add: title_text_def)
  ultimately show ?thesis
    by (simp add: chunk_by_tokens_def) (simp add: title_text_def)
qed

text \<open>The repository's test \<open>test_chunk_short_text\<close>, run on the model.\<close>

lemma chunk_short_text:
  "chunk_by_tokens \<lparr>chunk_size = 100, chunk_overlap = 10\<rparr> ''This is a short text.'' =
     Some [''This is a short text.'']"
  by code_simp

lemma py_rfind_less:
  assumes "0 \<le> j"
  shows "py_rfind ch text i j < j"
proof -
  let ?s = "clamp_index (length text) i" and ?e = "clamp_index (length text) j"
  let ?hits = "filter (\<lambda>k. text ! k = ch) [?s..<?e]"
  show ?thesis
  proof (cases "?hits = []")
    case True
    then show ?thesis using assms by (simp add: py_rfind_def Let_def)
  next
    case False
    then have "last ?hits \<in> set ?hits" by (rule last_in_set)
    then have "last ?hits < ?e" by simp
    moreover have "int ?e \<le> j" using assms by (simp add: clamp_index_def)
    ultimately show ?thesis using False by (simp add: py_rfind_def Let_def)
  qed
qed

lemma window_end_le:
  assumes "0 \<le> start + chunk_size c"
  shows "window_end c text start \<le> start + chunk_size c"
proof -
  have "py_rfind (CHR ''.'') text start (start + chunk_size c) < start + chunk_size c"
    and "py_rfind (CHR 0x0A) text start (start + chunk_size c) < start + chunk_size c"
    using assms by (simp_all add: py_rfind_less)
  then have "max (py_rfind (CHR ''.'') text start (start + chunk_size c))
                 (py_rfind (CHR 0x0A) text start (start + chunk_size c)) + 1
               \<le> start + chunk_size c"
    by linarith
  then show ?thesis by (simp add: window_end_def Let_def)
qed


lemma sorted_le_last: "sorted xs \<Longrightarrow> x \<in> set xs \<Longrightarrow> x \<le> last (xs :: nat list)"
  by (induction xs) auto

text \<open>
  \<open>rfind\<close> on a range inside the text: the result is \<open>-1\<close> or a position of the
  character in the range, and no position of the character in the range lies after it.
\<close>

lemma py_rfind_last:
  assumes "0 \<le> i" and "0 \<le> j" and "j \<le> int (length text)"
  shows "py_rfind ch text i j = - 1 \<or>
           (i \<le> py_rfind ch text i j \<and> py_rfind ch text i j < j \<and>
            text ! nat (py_rfind ch text i j) = ch)"
    and "\<And>k. i \<le> int k \<Longrightarrow> int k < j \<Longrightarrow> text ! k = ch \<Longrightarrow> int k \<le> py_rfind ch text i j"
proof -
  let ?s = "clamp_index (length text) i" and ?e = "clamp_index (length text) j"
  let ?hits = "filter (\<lambda>k. text ! k = ch) [?s..<?e]"
  have s: "?s = min (nat i) (length text)" and e: "?e = nat j"
    using assms by (simp_all add: clamp_index_def)
  have r: "py_rfind ch text i j = (if ?hits = [] then - 1 else int (last ?hits))"
    by (simp add: py_rfind_def Let_def)
  have srt: "sorted ?hits"
    by (rule sorted_wrt_filter) simp
  show "py_rfind ch text i j = - 1 \<or>
           (i \<le> py_rfind ch text i j \<and> py_rfind ch text i j < j \<and>
            text ! nat (py_rfind ch text i j) = ch)"
  proof (cases "?hits = []")
    case True
    then show ?thesis by (simp add: r)
  next
    case False
    then have "last ?hits \<in> set ?hits" by (rule last_in_set)
    then have b: "?s \<le> last ?hits" "last ?hits < ?e" "text ! last ?hits = ch"
      by simp_all
    have "last ?hits < length text" using b(2) assms(3) by (simp add: e)
    then have "nat i \<le> last ?hits" using b(1) by (simp add: s)
    then have "i \<le> int (last ?hits)" using assms(1) by linarith
    moreover have "int (last ?hits) < j" using b(2) by (simp add: e)
    ultimately show ?thesis using False b(3) by (simp add: r)
  qed
  fix k
  assume k: "i \<le> int k" "int k < j" "text ! k = ch"
  have "?s \<le> k" using k(1) assms(1) by (simp add: s)
  moreover have "k < ?e" using k(2) by (simp add: e)
  ultimately have m: "k \<in> set ?hits" using k(3) by simp
  then have ne: "?hits \<noteq> []" by (metis empty_iff empty_set)
  from sorted_le_last [OF srt m] ne
  show "int k \<le> py_rfind ch text i j" by (simp add: r)
qed

text \<open>
  C4, as amended, for an iteration of the window loop whose window has no negative edge
  (\<open>0 \<le> start\<close> and \<open>0 \<le> start + chunk_size\<close>). The next window starts exactly
  \<open>chunk_overlap\<close> characters before the end of the current one. That end is the
  right edge \<open>start + chunk_size\<close> when the edge is at or beyond the end of the text,
  or when no period or newline lies after \<open>start\<close> and before the edge; otherwise it
  is the position just after the last period or newline before the edge. So the start
  never advances by more than \<open>chunk_size - chunk_overlap\<close>, and it advances by
  exactly that if and only if the window ends at its right edge.
\<close>

theorem next_start_overlap_before_end:
  assumes "0 \<le> start" and "0 \<le> start + chunk_size c"
  shows "fst (chunk_step c text (start, chunks)) = window_end c text start - chunk_overlap c \<and>
    (int (length text) \<le> start + chunk_size c \<or>
     (\<forall>k. start < int k \<and> int k < start + chunk_size c \<longrightarrow>
          text ! k \<noteq> CHR ''.'' \<and> text ! k \<noteq> CHR 0x0A) \<longrightarrow>
       window_end c text start = start + chunk_size c) \<and>
    (start + chunk_size c < int (length text) \<and>
     (\<exists>k. start < int k \<and> int k < start + chunk_size c \<and>
          (text ! k = CHR ''.'' \<or> text ! k = CHR 0x0A)) \<longrightarrow>
       (\<exists>b. start < int b \<and> int b < start + chunk_size c \<and>
            (text ! b = CHR ''.'' \<or> text ! b = CHR 0x0A) \<and>
            (\<forall>k. b < k \<and> int k < start + chunk_size c \<longrightarrow>
                 text ! k \<noteq> CHR ''.'' \<and> text ! k \<noteq> CHR 0x0A) \<and>
            window_end c text start = int b + 1)) \<and>
    fst (chunk_step c text (start, chunks)) - start \<le> chunk_size c - chunk_overlap c \<and>
    (fst (chunk_step c text (start, chunks)) - start = chunk_size c - chunk_overlap c \<longleftrightarrow>
       window_end c text start = start + chunk_size c)"
proof -
  let ?e = "start + chunk_size c"
  let ?P = "py_rfind (CHR ''.'') text start ?e"
  let ?N = "py_rfind (CHR 0x0A) text start ?e"
  have step: "fst (chunk_step c text (start, chunks)) = window_end c text start - chunk_overlap c"
    by (simp add: chunk_step_def Let_def)
  have le: "window_end c text start \<le> ?e"
    using assms(2) by (rule window_end_le)
  have beyond: "window_end c text start = ?e" if "int (length text) \<le> ?e"
    using that by (simp add: window_end_def Let_def)
  have inside: "window_end c text start = (if max ?P ?N > start then max ?P ?N + 1 else ?e)"
    if "?e < int (length text)"
    using that by (simp add: window_end_def Let_def)
  have plain: "window_end c text start = ?e"
    if lt: "?e < int (length text)"
      and none: "\<forall>k. start < int k \<and> int k < ?e \<longrightarrow>
          text ! k \<noteq> CHR ''.'' \<and> text ! k \<noteq> CHR 0x0A"
  proof -
    have j: "?e \<le> int (length text)" using lt by simp
    have "?P \<le> start"
    proof (rule ccontr)
      assume "\<not> ?P \<le> start"
      then have g: "start < ?P" by simp
      with py_rfind_last(1) [OF assms j, of "CHR ''.''"] assms(1)
      have "?P < ?e" "text ! nat ?P = CHR ''.''" by auto
      moreover have "int (nat ?P) = ?P" using g assms(1) by simp
      ultimately show False using none [rule_format, of "nat ?P"] g by simp
    qed
    moreover have "?N \<le> start"
    proof (rule ccontr)
      assume "\<not> ?N \<le> start"
      then have g: "start < ?N" by simp
      with py_rfind_last(1) [OF assms j, of "CHR 0x0A"] assms(1)
      have "?N < ?e" "text ! nat ?N = CHR 0x0A" by auto
      moreover have "int (nat ?N) = ?N" using g assms(1) by simp
      ultimately show False using none [rule_format, of "nat ?N"] g by simp
    qed
    ultimately have "\<not> max ?P ?N > start" by linarith
    then show ?thesis unfolding inside [OF lt] by (rule if_not_P)
  qed
  have shrunk: "\<exists>b. start < int b \<and> int b < ?e \<and>
            (text ! b = CHR ''.'' \<or> text ! b = CHR 0x0A) \<and>
            (\<forall>k. b < k \<and> int k < ?e \<longrightarrow>
                 text ! k \<noteq> CHR ''.'' \<and> text ! k \<noteq> CHR 0x0A) \<and>
            window_end c text start = int b + 1"
    if lt: "?e < int (length text)"
      and some: "\<exists>k. start < int k \<and> int k < ?e \<and>
          (text ! k = CHR ''.'' \<or> text ! k = CHR 0x0A)"
  proof -
    have j: "?e \<le> int (length text)" using lt by simp
    note p1 = py_rfind_last(1) [OF assms j, of "CHR ''.''"]
    note n1 = py_rfind_last(1) [OF assms j, of "CHR 0x0A"]
    have p2: "int k \<le> ?P" if "start \<le> int k" "int k < ?e" "text ! k = CHR ''.''" for k
      using that by (rule py_rfind_last(2) [OF assms j])
    have n2: "int k \<le> ?N" if "start \<le> int k" "int k < ?e" "text ! k = CHR 0x0A" for k
      using that by (rule py_rfind_last(2) [OF assms j])
    from some obtain k where k: "start < int k" "int k < ?e"
      "text ! k = CHR ''.'' \<or> text ! k = CHR 0x0A"
      by blast
    have "int k \<le> max ?P ?N"
      using k p2 [of k] n2 [of k] by auto
    then have gt: "start < max ?P ?N" using k(1) by linarith
    then have w: "window_end c text start = max ?P ?N + 1"
      unfolding inside [OF lt] by (rule if_P)
    define b where "b = nat (max ?P ?N)"
    have b: "int b = max ?P ?N" using gt assms(1) by (simp add: b_def)
    have "start < int b" using gt b by simp
    moreover have "int b < ?e"
      using p1 n1 gt assms(1) unfolding b by (auto simp: max_def split: if_splits)
    moreover have "text ! b = CHR ''.'' \<or> text ! b = CHR 0x0A"
      using p1 n1 gt assms(1) unfolding b_def by (auto simp: max_def split: if_splits)
    moreover have "\<forall>k. b < k \<and> int k < ?e \<longrightarrow>
        text ! k \<noteq> CHR ''.'' \<and> text ! k \<noteq> CHR 0x0A"
    proof (intro allI impI)
      fix k'
      assume h: "b < k' \<and> int k' < ?e"
      then have "max ?P ?N < int k'" using b by linarith
      then have "?P < int k'" and "?N < int k'" by simp_all
      moreover have "start \<le> int k'" using h \<open>start < int b\<close> by linarith
      ultimately show "text ! k' \<noteq> CHR ''.'' \<and> text ! k' \<noteq> CHR 0x0A"
        using p2 [of k'] n2 [of k'] h by fastforce
    qed
    moreover have "window_end c text start = int b + 1" using w b by simp
    ultimately show ?thesis by blast
  qed
  have c2: "int (length text) \<le> ?e \<or>
     (\<forall>k. start < int k \<and> int k < ?e \<longrightarrow>
          text ! k \<noteq> CHR ''.'' \<and> text ! k \<noteq> CHR 0x0A) \<longrightarrow>
       window_end c text start = ?e"
    using beyond plain by (cases "int (length text) \<le> ?e") auto
  have c3: "?e < int (length text) \<and>
     (\<exists>k. start < int k \<and> int k < ?e \<and>
          (text ! k = CHR ''.'' \<or> text ! k = CHR 0x0A)) \<longrightarrow>
       (\<exists>b. start < int b \<and> int b < ?e \<and>
            (text ! b = CHR ''.'' \<or> text ! b = CHR 0x0A) \<and>
            (\<forall>k. b < k \<and> int k < ?e \<longrightarrow>
                 text ! k \<noteq> CHR ''.'' \<and> text ! k \<noteq> CHR 0x0A) \<and>
            window_end c text start = int b + 1)"
    using shrunk by blast
  have c4: "fst (chunk_step c text (start, chunks)) - start \<le> chunk_size c - chunk_overlap c"
    using step le by linarith
  have c5: "fst (chunk_step c text (start, chunks)) - start = chunk_size c - chunk_overlap c \<longleftrightarrow>
       window_end c text start = ?e"
    using step by linarith
  from step c2 c3 c4 c5 show ?thesis by (intro conjI)
qed

lemma shrinking_window_end: "window_end shrinking_chunker ''ab. cdefghijklmnop'' 0 = 3"
  by code_simp

lemma plain_window_end: "window_end shrinking_chunker ''abcdefghijklmnopqr'' 0 = 10"
  by code_simp

theorem next_start_overlap_before_end_witness:
  "fst (chunk_step shrinking_chunker ''abcdefghijklmnopqr'' (0, [])) = 10 - 2 \<and>
   window_end shrinking_chunker ''abcdefghijklmnopqrstu'' 5 = 5 + 10 \<and>
   fst (chunk_step shrinking_chunker ''ab. cdefghijklmnop'' (0, [])) = 3 - 2 \<and>
   (\<exists>b. ''ab. cdefghijklmnop'' ! b = CHR ''.'' \<and>
        window_end shrinking_chunker ''ab. cdefghijklmnop'' 0 = int b + 1)"
proof -
  have c: "chunk_size shrinking_chunker = 10" "chunk_overlap shrinking_chunker = 2"
    by (simp_all add: shrinking_chunker_def)
  have h: "(0 :: int) \<le> 0" "(0 :: int) \<le> 0 + chunk_size shrinking_chunker"
    "(0 :: int) \<le> 5" "(0 :: int) \<le> 5 + chunk_size shrinking_chunker"
    by (simp_all add: c)
  note plain = next_start_overlap_before_end [OF h(1,2), of "''abcdefghijklmnopqr''" "[]"]
  note later = next_start_overlap_before_end [OF h(3,4), of "''abcdefghijklmnopqrstu''" "[]"]
  note shrunk = next_start_overlap_before_end [OF h(1,2), of "''ab. cdefghijklmnop''" "[]"]
  have 1: "fst (chunk_step shrinking_chunker ''abcdefghijklmnopqr'' (0, [])) = 10 - 2"
    using plain [THEN conjunct1] by (simp add: c plain_window_end)
  have none: "\<forall>k. (5 :: int) < int k \<and> int k < 5 + chunk_size shrinking_chunker \<longrightarrow>
      ''abcdefghijklmnopqrstu'' ! k \<noteq> CHR ''.'' \<and> ''abcdefghijklmnopqrstu'' ! k \<noteq> CHR 0x0A"
  proof (intro allI impI)
    fix k :: nat
    assume "(5 :: int) < int k \<and> int k < 5 + chunk_size shrinking_chunker"
    then have "k \<in> {6, 7, 8, 9, 10, 11, 12, 13, 14}" by (auto simp: c)
    then show "''abcdefghijklmnopqrstu'' ! k \<noteq> CHR ''.'' \<and>
        ''abcdefghijklmnopqrstu'' ! k \<noteq> CHR 0x0A"
      by auto
  qed
  have 2: "window_end shrinking_chunker ''abcdefghijklmnopqrstu'' 5 = 5 + 10"
    using later [THEN conjunct2, THEN conjunct1] none by (simp add: c)
  have 3: "fst (chunk_step shrinking_chunker ''ab. cdefghijklmnop'' (0, [])) = 3 - 2"
    using shrunk [THEN conjunct1] by (simp add: c shrinking_window_end)
  have some: "(0 :: int) + chunk_size shrinking_chunker < int (length ''ab. cdefghijklmnop'') \<and>
     (\<exists>k. (0 :: int) < int k \<and> int k < 0 + chunk_size shrinking_chunker \<and>
          (''ab. cdefghijklmnop'' ! k = CHR ''.'' \<or> ''ab. cdefghijklmnop'' ! k = CHR 0x0A))"
    by (auto simp: c intro: exI [of _ 2])
  from shrunk [THEN conjunct2, THEN conjunct2, THEN conjunct1, THEN mp, OF some]
  obtain b where b: "''ab. cdefghijklmnop'' ! b = CHR ''.'' \<or> ''ab. cdefghijklmnop'' ! b = CHR 0x0A"
    "window_end shrinking_chunker ''ab. cdefghijklmnop'' 0 = int b + 1"
    by blast
  from b(2) have "b = 2" by (simp add: shrinking_window_end)
  with b(2) have 4: "\<exists>b. ''ab. cdefghijklmnop'' ! b = CHR ''.'' \<and>
        window_end shrinking_chunker ''ab. cdefghijklmnop'' 0 = int b + 1"
    by (intro exI [of _ 2]) simp
  from 1 2 3 4 show ?thesis by (intro conjI)
qed

text \<open>
  The claim C4 as written (every iteration advances the start by exactly
  \<open>chunk_size - chunk_overlap\<close>) fails on a shrunk window: with size 10 and overlap 2
  the first window of \<open>ab. cdefghijklmnop\<close> ends after the period, and the start
  advances by 1.
\<close>

theorem advance_not_size_minus_overlap:
  "(0 :: int) < int (length ''ab. cdefghijklmnop'') \<and>
   fst (chunk_step shrinking_chunker ''ab. cdefghijklmnop'' (0, [])) - 0 \<noteq>
     chunk_size shrinking_chunker - chunk_overlap shrinking_chunker"
  by (simp add: chunk_step_def Let_def shrinking_window_end) (simp add: shrinking_chunker_def)

section \<open>Cache: reads, round trip and keys\<close>

text \<open>
  C3 (the claim: an unexpired entry that is malformed in any way is a miss, never an
  error). The code catches only \<open>FileNotFoundError\<close> and \<open>UnpicklingError\<close>: on a
  fresh entry whose file is empty, \<open>pickle.load\<close> raises \<open>EOFError\<close>, which
  \<open>get\<close> passes on to its caller.
\<close>

theorem cache_get_empty_file_raises:
  "cache_get ''k'' ''queries'' 100 empty_file_cache = Inl EOFError"
  by (simp add: cache_get_def is_expired_def open_rb_def locate_def get_cache_path_def
      is_absolute_def path_parts_def empty_file_cache_def new_cache_def)

lemma cache_get_corrupt_is_miss:
  "\<not> is_expired c now (get_cache_path c key category) \<Longrightarrow>
   open_rb c (get_cache_path c key category) = Inr Corrupt_pickle \<Longrightarrow>
     cache_get key category now c = Inr None"
  by (simp add: cache_get_def Let_def)

text \<open>
  The paths of some keys and categories with the default cache directory: a category
  that is empty or \<open>.\<close> is the cache directory itself, a key with a separator names a
  file in a subdirectory, and two different pairs of category and key can name the same
  file.
\<close>

lemma get_cache_path_examples:
  "get_cache_path (new_cache t) ''k'' ''queries'' = ([''.cache''], [''queries'', ''k.pkl''])"
  "get_cache_path (new_cache t) ''k'' '''' = ([''.cache''], [''k.pkl''])"
  "get_cache_path (new_cache t) ''k'' ''.'' = ([''.cache''], [''k.pkl''])"
  "get_cache_path (new_cache t) ''a/b'' ''queries'' = ([''.cache''], [''queries'', ''a'', ''b.pkl''])"
  "get_cache_path (new_cache t) ''../queries/k'' ''embeddings'' =
     ([''.cache''], [''embeddings'', ''..'', ''queries'', ''k.pkl''])"
  "get_cache_path (new_cache t) ''k'' ''/tmp'' = ([], [''tmp'', ''k.pkl''])"
  by (simp_all add: get_cache_path_def is_absolute_def path_parts_def new_cache_def)

lemma cache_set_examples:
  "\<exists>c. cache_set ''k'' ''v'' '''' 100 (new_cache 60) = Inr c"
  "cache_set ''a/b'' ''v'' ''queries'' 100 (new_cache 60) = Inl FileNotFoundError"
  "\<exists>c. cache_set ''../queries/k'' ''v'' ''embeddings'' 100 (new_cache 60) = Inr c \<and>
       cache_get ''k'' ''queries'' 100 c = Inr (Some ''v'')"
  by (simp_all add: cache_set_def cache_get_def is_expired_def open_rb_def locate_def
      get_cache_path_def is_absolute_def path_parts_def new_cache_def)

text \<open>
  C7 (the claim: for every key, value and category, a \<open>get\<close> right after a \<open>set\<close>
  returns the value). \<open>set\<close> does not create the directory of its category. On a
  fresh cache, with the default category \<open>general\<close>, \<open>open\<close> raises
  \<open>FileNotFoundError\<close>: nothing is stored, and a \<open>get\<close> of the key is a miss.
\<close>

theorem cache_set_default_category_raises:
  "cache_set ''k'' ''v'' default_category 100 (new_cache 3600) = Inl FileNotFoundError \<and>
   cache_get ''k'' default_category 100 (new_cache 3600 :: string cache_manager) = Inr None"
  by (simp add: cache_set_def cache_get_def is_expired_def locate_def get_cache_path_def
      is_absolute_def path_parts_def new_cache_def default_category_def)

text \<open>
  When \<open>set\<close> returns, the round trip holds: a \<open>get\<close> of the key at time \<open>t'\<close>
  returns the value while the age \<open>t' - t\<close> of the file is at most the time to live,
  and is a miss once the age exceeds it.
\<close>

lemma walk_mono:
  assumes "walk d cur ps = Inr target"
    and "\<And>l m. d l = Some (Dir m) \<Longrightarrow> \<exists>m'. d' l = Some (Dir m')"
  shows "walk d' cur ps = Inr target"
  using assms(1)
proof (induction ps arbitrary: cur)
  case Nil
  then show ?case by simp
next
  case (Cons p ps)
  from Cons.prems obtain m where m: "d cur = Some (Dir m)"
    by (auto split: option.splits node.splits)
  from assms(2) [OF m] obtain m' where m': "d' cur = Some (Dir m')" ..
  from Cons.prems m
  have "walk d (if p = ''..'' then butlast cur else cur @ [p]) ps = Inr target" by simp
  from Cons.IH [OF this] m' show ?case by simp
qed

lemma cache_set_result:
  assumes "cache_set key v category now c = Inr c'"
  shows "ttl c' = ttl c" and "cache_dir c' = cache_dir c"
    and "\<exists>target. locate c' (get_cache_path c' key category) = Inr target \<and>
           disk c' target = Some (File (Entry v now) now)"
proof -
  let ?p = "get_cache_path c key category"
  note a = assms [unfolded cache_set_def Let_def]
  obtain target where l: "locate c ?p = Inr target"
    using a by (cases "locate c ?p") simp_all
  note b = a [unfolded l sum.case]
  have nul: "CHR 0x00 \<notin> set (concat (snd ?p))"
  proof
    assume "CHR 0x00 \<in> set (concat (snd ?p))"
    then have "locate c ?p = Inl ValueError" unfolding locate_def by (rule if_P)
    with l show False by simp
  qed
  have w: "walk (disk c) (fst ?p) (snd ?p) = Inr target"
    using l unfolding locate_def if_not_P [OF nul] .
  have c': "ttl c' = ttl c \<and> cache_dir c' = cache_dir c \<and>
      disk c' target = Some (File (Entry v now) now) \<and>
      (\<forall>l m. disk c l = Some (Dir m) \<longrightarrow> (\<exists>m'. disk c' l = Some (Dir m')))"
  proof (cases "disk c target")
    case None
    with b have "c' = c\<lparr>disk := (disk c)(butlast target \<mapsto> Dir now,
        target \<mapsto> File (Entry v now) now)\<rparr>"
      by simp
    with None show ?thesis by auto
  next
    case (Some n)
    show ?thesis
    proof (cases n)
      case (Dir m)
      with b Some show ?thesis by simp
    next
      case (File x m)
      with b Some have "c' = c\<lparr>disk := (disk c)(target \<mapsto> File (Entry v now) now)\<rparr>"
        by simp
      with Some File show ?thesis by auto
    qed
  qed
  then show "ttl c' = ttl c" and "cache_dir c' = cache_dir c" by simp_all
  have cd: "cache_dir c' = cache_dir c" using c' by simp
  have p: "get_cache_path c' key category = ?p"
    by (simp add: get_cache_path_def Let_def cd)
  have "walk (disk c') (fst ?p) (snd ?p) = Inr target"
  proof (rule walk_mono [OF w])
    fix l m
    assume "disk c l = Some (Dir m)"
    with c' show "\<exists>m'. disk c' l = Some (Dir m')" by blast
  qed
  then have "locate c' ?p = Inr target"
    unfolding locate_def if_not_P [OF nul] .
  with c' show "\<exists>target. locate c' (get_cache_path c' key category) = Inr target \<and>
           disk c' target = Some (File (Entry v now) now)"
    unfolding p by blast
qed

lemma cache_round_trip:
  assumes "cache_set k v category t c = Inr c'"
  shows "(t' - t \<le> real_of_int (ttl c') \<longrightarrow> cache_get k category t' c' = Inr (Some v)) \<and>
         (t' - t > real_of_int (ttl c') \<longrightarrow> cache_get k category t' c' = Inr None)"
proof -
  from cache_set_result(3) [OF assms]
  obtain target where "locate c' (get_cache_path c' k category) = Inr target"
    "disk c' target = Some (File (Entry v t) t)"
    by blast
  then show ?thesis
    by (simp add: cache_get_def is_expired_def open_rb_def Let_def)
qed

lemma cache_round_trip_example:
  "(\<exists>c'. cache_set ''k'' ''v'' ''queries'' 100 (new_cache 60) = Inr c' \<and>
      cache_get ''k'' ''queries'' 100 c' = Inr (Some ''v'') \<and>
      cache_get ''k'' ''queries'' 160 c' = Inr (Some ''v'') \<and>
      cache_get ''k'' ''queries'' 161 c' = Inr None)"
proof -
  obtain c' :: "string cache_manager"
    where s: "cache_set ''k'' ''v'' ''queries'' 100 (new_cache 60) = Inr c'"
    by (simp add: cache_set_def locate_def get_cache_path_def is_absolute_def path_parts_def
        new_cache_def)
  have t: "ttl c' = 60" using cache_set_result(1) [OF s] by (simp add: new_cache_def)
  have g1: "cache_get ''k'' ''queries'' 100 c' = Inr (Some ''v'')"
    using cache_round_trip [OF s, of 100] t by simp
  have g2: "cache_get ''k'' ''queries'' 160 c' = Inr (Some ''v'')"
    using cache_round_trip [OF s, of 160] t by simp
  have g3: "cache_get ''k'' ''queries'' 161 c' = Inr None"
    using cache_round_trip [OF s, of 161] t by simp
  from s g1 g2 g3 show ?thesis by blast
qed

lemma sort_key_fst_unique:
  assumes "distinct (map fst d1)" "distinct (map fst d2)" "set d1 = set d2"
  shows "sort_key fst d1 = sort_key fst (d2 :: ('k :: linorder \<times> 'b) list)"
proof -
  have d1: "distinct d1" and d2: "distinct d2"
    using assms(1,2) by (simp_all add: distinct_map)
  have m: "mset d1 = mset (sort_key fst d2)"
    using d1 d2 assms(3) by (simp add: set_eq_iff_mset_eq_distinct)
  have inj: "inj_on fst (set d1)"
    using assms(1) by (simp add: distinct_map)
  show ?thesis
  proof (rule sort_key_inj_key_eq [OF m inj])
    show "sorted (map fst (sort_key fst d2))" by simp
  qed
qed

text \<open>
  C8: two dictionaries with the same items, whatever the order in which the items were
  inserted, have the same key; in particular \<open>{"a": 1, "b": 2}\<close> and
  \<open>{"b": 2, "a": 1}\<close> do, whatever the digest function.
\<close>

theorem generate_key_order_independent:
  assumes "distinct (map fst d1)" "distinct (map fst d2)" "set d1 = set d2"
  shows "generate_key sha256 (JDict d1) = generate_key sha256 (JDict d2)"
  using sort_key_fst_unique [OF assms] by (simp add: generate_key_def)

lemma dumps_ab:
  "json_dumps (JDict [(''a'', JInt 1), (''b'', JInt 2)]) = ''{\"a\": 1, \"b\": 2}''"
  by code_simp

theorem generate_key_order_independent_witness:
  "\<forall>sha256. generate_key sha256 (JDict [(''a'', JInt 1), (''b'', JInt 2)]) =
             generate_key sha256 (JDict [(''b'', JInt 2), (''a'', JInt 1)])"
proof
  fix sha256 :: "string \<Rightarrow> string"
  have "distinct (map fst [(''a'', JInt 1), (''b'', JInt 2)])"
    and "distinct (map fst [(''b'', JInt 2), (''a'', JInt 1)])"
    and "set [(''a'', JInt 1), (''b'', JInt 2)] = set [(''b'', JInt 2), (''a'', JInt 1)]"
    by auto
  then show "generate_key sha256 (JDict [(''a'', JInt 1), (''b'', JInt 2)]) =
             generate_key sha256 (JDict [(''b'', JInt 2), (''a'', JInt 1)])"
    by (rule generate_key_order_independent)
qed


section \<open>Query processor: context assembly\<close>

lemma context_loop_prefix:
  "\<exists>n \<le> length rs.
           context_loop m rs (parts, tot) =
             (parts @ map hit_content (take n rs),
              tot + int (sum_list (map (length \<circ> hit_content) (take n rs)))) \<and>
           (tot \<le> m \<longrightarrow> tot + int (sum_list (map (length \<circ> hit_content) (take n rs))) \<le> m) \<and>
           (n < length rs \<longrightarrow>
              tot + int (sum_list (map (length \<circ> hit_content) (take n rs)))
                + int (length (hit_content (rs ! n))) > m)"
proof (induction rs arbitrary: parts tot)
  case Nil
  show ?case by simp
next
  case (Cons r rs)
  show ?case
  proof (cases "tot + int (length (hit_content r)) \<le> m")
    case True
    from Cons.IH [of "parts @ [hit_content r]" "tot + int (length (hit_content r))"]
    obtain n where n: "n \<le> length rs"
      "context_loop m rs (parts @ [hit_content r], tot + int (length (hit_content r))) =
         ((parts @ [hit_content r]) @ map hit_content (take n rs),
          tot + int (length (hit_content r))
            + int (sum_list (map (length \<circ> hit_content) (take n rs))))"
      "tot + int (length (hit_content r)) \<le> m \<longrightarrow>
         tot + int (length (hit_content r))
            + int (sum_list (map (length \<circ> hit_content) (take n rs))) \<le> m"
      "n < length rs \<longrightarrow>
         tot + int (length (hit_content r))
            + int (sum_list (map (length \<circ> hit_content) (take n rs)))
            + int (length (hit_content (rs ! n))) > m"
      by blast
    show ?thesis
    proof (intro exI [of _ "Suc n"] conjI)
      show "Suc n \<le> length (r # rs)" using n(1) by simp
      show "context_loop m (r # rs) (parts, tot) =
         (parts @ map hit_content (take (Suc n) (r # rs)),
          tot + int (sum_list (map (length \<circ> hit_content) (take (Suc n) (r # rs)))))"
        using True n(2) by (simp add: Let_def add.assoc)
      show "tot \<le> m \<longrightarrow>
          tot + int (sum_list (map (length \<circ> hit_content) (take (Suc n) (r # rs)))) \<le> m"
        using True n(3) by (simp add: add.assoc)
      show "Suc n < length (r # rs) \<longrightarrow>
          m < tot + int (sum_list (map (length \<circ> hit_content) (take (Suc n) (r # rs))))
                + int (length (hit_content ((r # rs) ! Suc n)))"
        using n(4) by (simp add: add.assoc)
    qed
  next
    case False
    show ?thesis
    proof (intro exI [of _ 0] conjI)
      show "context_loop m (r # rs) (parts, tot) =
         (parts @ map hit_content (take 0 (r # rs)),
          tot + int (sum_list (map (length \<circ> hit_content) (take 0 (r # rs)))))"
        using False by (simp add: Let_def)
    qed (use False in simp_all)
  qed
qed


lemma length_py_join:
  "length (py_join sep parts) =
     sum_list (map length parts) + length sep * (length parts - 1)"
  by (induction sep parts rule: py_join.induct) simp_all


text \<open>
  What \<open>get_context_for_generation\<close> assembles: the contents of the first \<open>n\<close> ranked
  results, whole and in ranked order, joined by two newlines. The total that the loop
  keeps, the cumulative length of the contents, never exceeds a (non-negative) budget,
  and the first result left out is the one whose content would have made that total
  exceed the budget. The separators are not counted: the assembled context is longer
  than the total by two characters for each separator.
\<close>

lemma context_assembly_greedy:
  assumes "get_context_for_generation np embed_query question top_k max_context_length vs = Inr ctx"
    and "0 \<le> max_context_length"
  shows "\<exists>n \<le> length (ctx_sources ctx).
           ctx_context ctx =
             py_join [CHR 0x0A, CHR 0x0A] (map hit_content (take n (ctx_sources ctx))) \<and>
           ctx_num_sources ctx = n \<and>
           int (sum_list (map (length \<circ> hit_content) (take n (ctx_sources ctx))))
             \<le> max_context_length \<and>
           (n < length (ctx_sources ctx) \<longrightarrow>
              int (sum_list (map (length \<circ> hit_content) (take n (ctx_sources ctx))))
                + int (length (hit_content (ctx_sources ctx ! n))) > max_context_length) \<and>
           length (ctx_context ctx) =
             sum_list (map (length \<circ> hit_content) (take n (ctx_sources ctx))) + 2 * (n - 1)"
proof -
  from assms(1) obtain results where
    ctx: "ctx = assemble_context question max_context_length results"
    by (auto simp: get_context_for_generation_def split: sum.splits)
  from context_loop_prefix [of results max_context_length "[]" 0]
  obtain n where n: "n \<le> length results"
    "context_loop max_context_length results ([], 0) =
       (map hit_content (take n results),
        int (sum_list (map (length \<circ> hit_content) (take n results))))"
    "int (sum_list (map (length \<circ> hit_content) (take n results))) \<le> max_context_length"
    "n < length results \<longrightarrow>
       int (sum_list (map (length \<circ> hit_content) (take n results)))
         + int (length (hit_content (results ! n))) > max_context_length"
    using assms(2) by auto
  have src: "ctx_sources ctx = results"
    by (simp add: ctx assemble_context_def Let_def)
  have c: "ctx_context ctx = py_join [CHR 0x0A, CHR 0x0A] (map hit_content (take n results))"
    by (simp add: ctx assemble_context_def Let_def n(2))
  have k: "ctx_num_sources ctx = n"
    using n(1) by (simp add: ctx assemble_context_def Let_def n(2))
  have l: "length (ctx_context ctx) =
      sum_list (map (length \<circ> hit_content) (take n results)) + 2 * (n - 1)"
    using n(1) by (simp add: c length_py_join comp_def)
  show ?thesis
    unfolding src using n(1) c k n(3) n(4) l by blast
qed

lemma scenario_search_07_any:
  assumes a: "cosine_similarity np [1, 0, 0] [1, 0, 0] = Inr (Fin 1)"
    and b: "cosine_similarity np [1, 0, 0] [0, 1, 0] = Inr (Fin 0)"
    and c: "cosine_similarity np [1, 0, 0] [9 / 10, 1 / 10, 0] = Inr (Fin r)"
    and r: "7 / 10 \<le> r" "r \<le> 1"
  shows "search np [1, 0, 0] 5 (Fin (7 / 10)) scenario_store = Inr [(doc_a, Fin 1), (doc_c, Fin r)]"
proof -
  have ge: "float_ge (Fin 1) (Fin (7 / 10))" "\<not> float_ge (Fin 0) (Fin (7 / 10))"
    "float_ge (Fin r) (Fin (7 / 10))"
    using r by (simp_all add: float_ge_def)
  have loop: "search_loop np [1, 0, 0] (Fin (7 / 10)) [doc_a, doc_b, doc_c] [] =
      Inr [(doc_a, Fin 1), (doc_c, Fin r)]"
    by (simp add: scenario_embeddings a b c ge)
  have sorted: "py_sort_reverse snd [(doc_a, Fin 1), (doc_c, Fin r)] =
      [(doc_a, Fin 1), (doc_c, Fin r)]"
    using r by (simp add: py_sort_reverse_def)
  show ?thesis
    by (simp add: search_def scenario_documents loop sorted py_prefix_def clamp_index_def
        del: search_loop.simps)
qed

lemma scenario_search_07:
  "search exact_numpy [1, 0, 0] 5 (Fin (7 / 10)) scenario_store =
     Inr [(doc_a, Fin 1), (doc_c, Fin ((9 / 10) / sqrt (41 / 50)))]"
proof -
  have "7 / 10 \<le> (9 / 10) / sqrt (41 / 50 :: real)" "(9 / 10) / sqrt (41 / 50 :: real) \<le> 1"
    using sim_c_bounds by linarith+
  with exact_scenario_similarities show ?thesis
    by (rule scenario_search_07_any)
qed

lemma scenario_process_query:
  "process_query exact_numpy demo_embed ''q'' 5 (Fin (7 / 10)) scenario_store = Inr scenario_hits"
  unfolding process_query_def demo_embed_def scenario_hits_def
  by (simp only: scenario_search_07 sum.case list.map)

lemma scenario_get_context:
  "get_context_for_generation exact_numpy demo_embed ''q'' 5 m scenario_store =
     Inr (assemble_context ''q'' m scenario_hits)"
  by (simp only: get_context_for_generation_def scenario_process_query sum.case)

lemma scenario_contents: "map hit_content scenario_hits = [''alpha'', ''gamma'']"
  by (simp add: scenario_hits_def format_result_def doc_a_def doc_c_def)

lemma assemble_two:
  assumes "map hit_content hits = [x, y]"
    and "int (length x) + int (length y) \<le> m"
  shows "ctx_context (assemble_context q m hits) = x @ [CHR 0x0A, CHR 0x0A] @ y"
    and "ctx_num_sources (assemble_context q m hits) = 2"
proof -
  from assms(1) obtain h1 h2 where h: "hits = [h1, h2]" "hit_content h1 = x" "hit_content h2 = y"
    by auto
  have "int (length x) \<le> m" using assms(2) by linarith
  then have l: "context_loop m hits ([], 0) = ([x, y], int (length x) + int (length y))"
    using assms(2) by (simp add: h Let_def)
  show "ctx_context (assemble_context q m hits) = x @ [CHR 0x0A, CHR 0x0A] @ y"
    by (simp add: assemble_context_def Let_def l)
  show "ctx_num_sources (assemble_context q m hits) = 2"
    by (simp add: assemble_context_def Let_def l)
qed

text \<open>
  C9 (the claim: the assembled context's length never exceeds the budget, which the
  source documents as the maximum context length in characters). The loop counts the
  contents and not the separators. With the budget 10 and the two results \<open>alpha\<close>
  and \<open>gamma\<close> of the scenario, both contents fit (5 + 5), and the assembled context
  has 12 characters.
\<close>

theorem context_longer_than_budget:
  "\<exists>ctx. get_context_for_generation exact_numpy demo_embed ''q'' 5 10 scenario_store = Inr ctx \<and>
     ctx_context ctx = ''alpha'' @ [CHR 0x0A, CHR 0x0A] @ ''gamma'' \<and>
     ctx_num_sources ctx = 2 \<and>
     length (ctx_context ctx) = 12"
proof -
  have fit: "int (length ''alpha'') + int (length ''gamma'') \<le> 10" by simp
  note two = assemble_two [OF scenario_contents fit, of "''q''"]
  show ?thesis
    by (intro exI [of _ "assemble_context ''q'' 10 scenario_hits"] conjI scenario_get_context two)
       (simp add: two)
qed

section \<open>Application: memoized queries\<close>























end
